theory Spec2Isabelle
  imports Main
begin

section \<open>The menu model and the collaborators\<close>

text \<open>
  The menu model is a tree of \<open>MenuNode\<close>s: an \<open>ActionMenuNode\<close> refers to a command by
  \<open>action.commandId\<close> and carries a label; a \<open>CompositeMenuNode\<close> owns an ordered list of
  children, has an optional label and the flag \<open>isSubmenu\<close>. Only the two classes that
  \<open>browser-menu-plugin.ts\<close> tests with \<open>instanceof\<close> exist.
\<close>

datatype MenuNode =
    ActionMenuNode (commandId: string) (action_label: string)
  | CompositeMenuNode (menu_label: "string option") (isSubmenu: bool) (children: "MenuNode list")
where
  "children (ActionMenuNode c l) = []"
| "menu_label (ActionMenuNode c l) = None"
| "isSubmenu (ActionMenuNode c l) = False"

text \<open>A command of the application's own command registry.\<close>

record Command =
  command_id :: string
  iconClass :: "string option"

text \<open>
  The collaborators the factory is injected with: the command registry (the commands it
  holds and its three state queries) and the keybinding registry (the bindings of a
  command, in the order the registry returns them, and the formatter
  \<open>Keybinding.acceleratorFor\<close>). The type \<open>'b\<close> is the type of a binding. A value of this
  record is the state of the collaborators at one instant.
\<close>

record 'b Collaborators =
  registered :: "Command list"
  cmd_isEnabled :: "string \<Rightarrow> bool"
  cmd_isVisible :: "string \<Rightarrow> bool"
  cmd_isToggled :: "string \<Rightarrow> bool"
  getKeybindingsForCommand :: "string \<Rightarrow> 'b list"
  acceleratorFor :: "'b \<Rightarrow> string list"

text \<open>
  Modelled from the spec: \<open>CommandRegistry.getCommand\<close> (\<open>getCommand(id) -> Command|undefined\<close>)
  is declared in \<open>../../common\<close>, which is not among the sources. The registry keeps each
  command under the command's own id, so a lookup that succeeds returns a command with
  the id asked for.
\<close>

definition getCommand :: "('b, 'x) Collaborators_scheme \<Rightarrow> string \<Rightarrow> Command option" where
  "getCommand ext i = find (\<lambda>c. command_id c = i) (registered ext)"

section \<open>The Phosphor command registry built for one menu\<close>

text \<open>
  \<open>addPhosphorCommand\<close> hands Phosphor an options object whose \<open>execute\<close>, \<open>isEnabled\<close>,
  \<open>isVisible\<close> and \<open>isToggled\<close> are closures over \<open>command.id\<close> that ask the application's
  command registry when they are called. The model keeps the captured id (\<open>target\<close>); the
  closures are evaluated against the collaborators' state at the time of the call.
\<close>

record ICommandOptions =
  target :: string
  label :: string
  icon :: "string option"

record IKeyBindingOptions =
  command :: string
  keys :: "string list"
  selector :: string

text \<open>
  The Phosphor registry: the commands in the order they were added, the key bindings in
  the order they were added, and whether the method \<open>isVisible\<close> has been replaced by the
  constant \<open>() => true\<close> (as \<open>createMenuBar\<close> does).
\<close>

record PhosphorCommandRegistry =
  commands :: "(string \<times> ICommandOptions) list"
  keyBindings :: "IKeyBindingOptions list"
  isVisible_forced :: bool

datatype error = AlreadyRegistered string

definition new_PhosphorCommandRegistry :: PhosphorCommandRegistry where
  "new_PhosphorCommandRegistry = \<lparr>commands = [], keyBindings = [], isVisible_forced = False\<rparr>"

text \<open>
  Phosphor's \<open>CommandRegistry.addCommand\<close> throws when the id is already registered;
  \<open>addKeyBinding\<close> appends the binding.
\<close>

definition addCommand ::
  "PhosphorCommandRegistry \<Rightarrow> string \<Rightarrow> ICommandOptions \<Rightarrow> error + PhosphorCommandRegistry" where
  "addCommand reg i opts =
     (if map_of (commands reg) i \<noteq> None then Inl (AlreadyRegistered i)
      else Inr (reg\<lparr>commands := commands reg @ [(i, opts)]\<rparr>))"

definition addKeyBinding ::
  "PhosphorCommandRegistry \<Rightarrow> IKeyBindingOptions \<Rightarrow> PhosphorCommandRegistry" where
  "addKeyBinding reg kb = reg\<lparr>keyBindings := keyBindings reg @ [kb]\<rparr>"

text \<open>
  Phosphor's \<open>CommandRegistry.isVisible(id)\<close>: \<open>false\<close> for an id that is not registered,
  otherwise what the command's \<open>isVisible\<close> closure returns; after the assignment
  \<open>phosphorCommands.isVisible = () => true\<close> it is \<open>true\<close> for every id.
\<close>

definition isVisible ::
  "('b, 'x) Collaborators_scheme \<Rightarrow> PhosphorCommandRegistry \<Rightarrow> string \<Rightarrow> bool" where
  "isVisible ext reg i =
     (if isVisible_forced reg then True
      else case map_of (commands reg) i of
             None \<Rightarrow> False
           | Some opts \<Rightarrow> cmd_isVisible ext (target opts))"

subsection \<open>BrowserMainMenuFactory\<close>

definition addPhosphorCommand ::
  "('b, 'x) Collaborators_scheme \<Rightarrow> PhosphorCommandRegistry \<Rightarrow> MenuNode
     \<Rightarrow> error + PhosphorCommandRegistry" where
  "addPhosphorCommand ext cmds menu =
     (case getCommand ext (commandId menu) of
        None \<Rightarrow> Inr cmds
      | Some cmd \<Rightarrow>
          (case addCommand cmds (command_id cmd)
                  \<lparr>target = command_id cmd, label = action_label menu, icon = iconClass cmd\<rparr> of
             Inl e \<Rightarrow> Inl e
           | Inr cmds' \<Rightarrow>
               (case getKeybindingsForCommand ext (command_id cmd) of
                  [] \<Rightarrow> Inr cmds'
                | binding # _ \<Rightarrow>
                    Inr (addKeyBinding cmds'
                          \<lparr>command = command_id cmd, keys = acceleratorFor ext binding,
                           selector = ''.p-Widget''\<rparr>))))"

text \<open>
  \<open>addPhosphorCommands(commands, menu)\<close> iterates over \<open>menu.children\<close>; the model takes the
  list of children that is left to visit.
\<close>

function addPhosphorCommands ::
  "('b, 'x) Collaborators_scheme \<Rightarrow> PhosphorCommandRegistry \<Rightarrow> MenuNode list
     \<Rightarrow> error + PhosphorCommandRegistry" where
  "addPhosphorCommands ext cmds [] = Inr cmds"
| "addPhosphorCommands ext cmds (ActionMenuNode c l # rest) =
     (case addPhosphorCommand ext cmds (ActionMenuNode c l) of
        Inl e \<Rightarrow> Inl e
      | Inr cmds' \<Rightarrow> addPhosphorCommands ext cmds' rest)"
| "addPhosphorCommands ext cmds (CompositeMenuNode lb sub ch # rest) =
     (case addPhosphorCommands ext cmds ch of
        Inl e \<Rightarrow> Inl e
      | Inr cmds' \<Rightarrow> addPhosphorCommands ext cmds' rest)"
  by pat_completeness auto
termination
  by (relation "measure (\<lambda>(ext, cmds, ns). size_list size ns)") auto

definition createPhosporCommands ::
  "('b, 'x) Collaborators_scheme \<Rightarrow> MenuNode \<Rightarrow> error + PhosphorCommandRegistry" where
  "createPhosporCommands ext menu =
     addPhosphorCommands ext new_PhosphorCommandRegistry (children menu)"

section \<open>DynamicMenuWidget\<close>

text \<open>
  The item options pushed by \<open>buildSubMenus\<close>: a command item, a separator, or a submenu
  item holding a nested \<open>DynamicMenuWidget\<close>, of which the model keeps the title label and
  the items its constructor computed.
\<close>

datatype IItemOptions =
    CommandItem string
  | SeparatorItem
  | SubmenuItem string "IItemOptions list"

definition title_of :: "MenuNode \<Rightarrow> string" where
  "title_of menu = (case menu_label menu of None \<Rightarrow> [] | Some l \<Rightarrow> l)"

text \<open>
  \<open>buildSubMenus(items, menu, commands)\<close>, as the loop over the children of \<open>menu\<close> that
  are left, with the accumulated \<open>items\<close>. \<open>opts\<close> is \<open>this.options.commands\<close>: the
  constructor of the nested \<open>DynamicMenuWidget(item, this.options)\<close> runs
  \<open>buildSubMenus([], item, this.options.commands)\<close> and its result is \<open>submenu.items\<close>.
\<close>

function buildSubMenus ::
  "('b, 'x) Collaborators_scheme \<Rightarrow> PhosphorCommandRegistry \<Rightarrow> IItemOptions list
     \<Rightarrow> MenuNode list \<Rightarrow> PhosphorCommandRegistry \<Rightarrow> IItemOptions list" where
  "buildSubMenus ext opts items [] cmds = items"
| "buildSubMenus ext opts items (CompositeMenuNode lb sub ch # rest) cmds =
     (if length ch > 0 then
        (if sub then
           (let submenu = buildSubMenus ext opts [] ch opts in
            if length submenu = 0 then buildSubMenus ext opts items rest cmds
            else buildSubMenus ext opts
                   (items @ [SubmenuItem (title_of (CompositeMenuNode lb sub ch)) submenu])
                   rest cmds)
         else
           (let submenu = buildSubMenus ext opts [] ch cmds in
            if length submenu = 0 then buildSubMenus ext opts items rest cmds
            else buildSubMenus ext opts
                   ((if length items > 0 then items @ [SeparatorItem] else items) @ submenu)
                   rest cmds))
      else buildSubMenus ext opts items rest cmds)"
| "buildSubMenus ext opts items (ActionMenuNode c l # rest) cmds =
     (if \<not> isVisible ext cmds c then buildSubMenus ext opts items rest cmds
      else buildSubMenus ext opts (items @ [CommandItem c]) rest cmds)"
  by pat_completeness auto
termination
  by (relation "measure (\<lambda>(ext, opts, items, ns, cmds). size_list size ns)") auto

text \<open>
  The widget: \<open>menu\<close> is the node it was constructed for, in the state the model has when
  the widget is used; \<open>options\<close> is \<open>options.commands\<close>, the Phosphor registry it was
  constructed with; \<open>title_label\<close> is \<open>title.label\<close>, set from \<open>menu.label\<close> when there is
  one; \<open>items\<close> are the items added so far.
\<close>

record DynamicMenuWidget =
  menu :: MenuNode
  options :: PhosphorCommandRegistry
  title_label :: string
  items :: "IItemOptions list"

text \<open>
  \<open>updateSubMenus(parent, menu, commands)\<close> adds every built item to \<open>parent\<close>, which is
  always \<open>this\<close>.
\<close>

definition updateSubMenus ::
  "('b, 'x) Collaborators_scheme \<Rightarrow> DynamicMenuWidget \<Rightarrow> MenuNode \<Rightarrow> PhosphorCommandRegistry
     \<Rightarrow> DynamicMenuWidget" where
  "updateSubMenus ext this m cmds =
     this\<lparr>items := items this @ buildSubMenus ext (options this) [] (children m) cmds\<rparr>"

definition new_DynamicMenuWidget ::
  "('b, 'x) Collaborators_scheme \<Rightarrow> MenuNode \<Rightarrow> PhosphorCommandRegistry \<Rightarrow> DynamicMenuWidget" where
  "new_DynamicMenuWidget ext m opts =
     updateSubMenus ext \<lparr>menu = m, options = opts, title_label = title_of m, items = []\<rparr> m opts"

definition clearItems :: "DynamicMenuWidget \<Rightarrow> DynamicMenuWidget" where
  "clearItems this = this\<lparr>items := []\<rparr>"

definition aboutToShow ::
  "('b, 'x) Collaborators_scheme \<Rightarrow> DynamicMenuWidget \<Rightarrow> DynamicMenuWidget" where
  "aboutToShow ext this =
     (let this' = clearItems this in updateSubMenus ext this' (menu this') (options this'))"


subsection \<open>The two factory entry points\<close>

text \<open>
  \<open>menuModel\<close> is what \<open>this.menuProvider.getMenu(path)\<close> returned. \<open>createMenuBar\<close>
  replaces \<open>isVisible\<close> on the Phosphor registry and makes one widget for each child of
  the model that is a \<open>CompositeMenuNode\<close>; \<open>createContextMenu\<close> makes one widget for the
  model itself.
\<close>

fun isCompositeMenuNode :: "MenuNode \<Rightarrow> bool" where
  "isCompositeMenuNode (CompositeMenuNode lb sub ch) = True"
| "isCompositeMenuNode (ActionMenuNode c l) = False"

definition createMenuBar ::
  "('b, 'x) Collaborators_scheme \<Rightarrow> MenuNode \<Rightarrow> error + DynamicMenuWidget list" where
  "createMenuBar ext menuModel =
     (case createPhosporCommands ext menuModel of
        Inl e \<Rightarrow> Inl e
      | Inr phosphorCommands \<Rightarrow>
          (let phosphorCommands' = phosphorCommands\<lparr>isVisible_forced := True\<rparr>
           in Inr (map (\<lambda>m. new_DynamicMenuWidget ext m phosphorCommands')
                     (filter isCompositeMenuNode (children menuModel)))))"

definition createContextMenu ::
  "('b, 'x) Collaborators_scheme \<Rightarrow> MenuNode \<Rightarrow> error + DynamicMenuWidget" where
  "createContextMenu ext menuModel =
     (case createPhosporCommands ext menuModel of
        Inl e \<Rightarrow> Inl e
      | Inr phosphorCommands \<Rightarrow> Inr (new_DynamicMenuWidget ext menuModel phosphorCommands))"

subsection \<open>Opening and closing: the focus hook\<close>

text \<open>
  \<open>DynamicMenuWidget.open\<close> reads \<open>window.document.activeElement\<close> (cast to
  \<open>HTMLElement\<close>), connects a callback to the signal \<open>aboutToClose\<close> and calls Phosphor's
  \<open>Menu.open\<close>. The callback focuses the captured element and disconnects itself. The
  state below holds what this touches: the element that has the focus, whether the menu
  is attached, the callbacks connected to \<open>aboutToClose\<close> (each one is its captured
  element), the calls of \<open>focus()\<close> made by callbacks so far, and the menu's own node.
  Phosphor's \<open>Menu.open\<close> returns at once when the menu is attached, otherwise attaches
  and activates it; closing an attached menu emits \<open>aboutToClose\<close> to the callbacks
  connected at that moment and detaches the menu.
\<close>

record 'e MenuView =
  activeElement :: 'e
  attached :: bool
  aboutToClose :: "'e list"
  restored :: "'e list"
  menuNode :: 'e

definition super_open :: "'e MenuView \<Rightarrow> 'e MenuView" where
  "super_open s = (if attached s then s else s\<lparr>attached := True, activeElement := menuNode s\<rparr>)"

definition open_menu :: "'e MenuView \<Rightarrow> 'e MenuView" where
  "open_menu s =
     (let previouslyActive = activeElement s
      in super_open (s\<lparr>aboutToClose := aboutToClose s @ [previouslyActive]\<rparr>))"

definition cb :: "'e \<Rightarrow> 'e MenuView \<Rightarrow> 'e MenuView" where
  "cb previouslyActive s =
     s\<lparr>activeElement := previouslyActive,
       restored := restored s @ [previouslyActive],
       aboutToClose := remove1 previouslyActive (aboutToClose s)\<rparr>"

fun emit :: "'e list \<Rightarrow> 'e MenuView \<Rightarrow> 'e MenuView" where
  "emit [] s = s"
| "emit (slot # slots) s = emit slots (cb slot s)"

definition close_menu :: "'e MenuView \<Rightarrow> 'e MenuView" where
  "close_menu s = (if attached s then (emit (aboutToClose s) s)\<lparr>attached := False\<rparr> else s)"

text \<open>Between two calls the focus may move to any element.\<close>

definition focus_moves :: "'e \<Rightarrow> 'e MenuView \<Rightarrow> 'e MenuView" where
  "focus_moves e s = s\<lparr>activeElement := e\<rparr>"

text \<open>
  The states a menu view can be in: it starts detached with no callback connected, and
  then is opened, closed, or sees the focus move.
\<close>

inductive reachable :: "'e MenuView \<Rightarrow> bool" where
  fresh: "\<not> attached s \<Longrightarrow> aboutToClose s = [] \<Longrightarrow> reachable s"
| opened: "reachable s \<Longrightarrow> reachable (open_menu s)"
| closed: "reachable s \<Longrightarrow> reachable (close_menu s)"
| moved: "reachable s \<Longrightarrow> reachable (focus_moves e s)"

section \<open>WidgetOpenHandler\<close>

datatype WidgetOpenMode = mode_open | mode_reveal | mode_activate

text \<open>An absent property of the options object is \<open>None\<close>.\<close>

record WidgetOpenerOptions =
  mode :: "WidgetOpenMode option"
  widgetOptions :: "string option"

record BaseWidget =
  widget_id :: string
  isAttached :: bool

datatype ShellCall =
    addWidget nat string
  | activateWidget string
  | revealWidget string

datatype open_error = NoFactory string | WidgetCreationFailure string

text \<open>
  Widgets are objects: the store maps a reference to the widget's state. The record holds
  the widget manager's table (from factory id and options to the widget), the factories,
  the widgets created so far (each with the factory id \<open>onDidCreateWidget\<close> reported) and
  the calls the shell received.
\<close>

record WidgetSystem =
  store :: "(nat \<times> BaseWidget) list"
  widgets :: "((string \<times> string) \<times> nat) list"
  factories :: "string \<Rightarrow> (string \<Rightarrow> open_error + BaseWidget) option"
  created :: "(string \<times> nat) list"
  shellCalls :: "ShellCall list"

record URI =
  scheme :: string
  authority :: string
  path :: string
  query :: string
  fragment :: string

text \<open>
  Modelled from the spec: the class \<open>URI\<close> (\<open>../common/uri\<close>) is not among the sources.
  \<open>withoutFragment\<close> gives the URI with an empty fragment and \<open>toString\<close> its string
  form, each component followed or preceded by its delimiter when it is not empty.
\<close>

definition withoutFragment :: "URI \<Rightarrow> URI" where
  "withoutFragment u = u\<lparr>fragment := []\<rparr>"

definition toString :: "URI \<Rightarrow> string" where
  "toString u =
     (if scheme u = [] then [] else scheme u @ '':'')
     @ (if authority u = [] then [] else ''//'' @ authority u)
     @ path u
     @ (if query u = [] then [] else ''?'' @ query u)
     @ (if fragment u = [] then [] else ''#'' @ fragment u)"

text \<open>
  Modelled from the spec: \<open>WidgetManager\<close> (\<open>./widget-manager\<close>) is not among the sources.
  \<open>getWidget\<close> returns the widget the manager holds for the factory id and options, if
  any; \<open>getOrCreateWidget\<close> reuses that widget, and otherwise asks the factory for a new
  one, keeps it and reports it to \<open>onDidCreateWidget\<close>. A missing factory and a factory
  that rejects are errors that reach the caller.
\<close>

definition manager_getWidget :: "WidgetSystem \<Rightarrow> string \<Rightarrow> string \<Rightarrow> nat option" where
  "manager_getWidget st factoryId opts = map_of (widgets st) (factoryId, opts)"

definition fresh_ref :: "WidgetSystem \<Rightarrow> nat" where
  "fresh_ref st = Suc (fold max (map fst (store st)) 0)"

definition manager_getOrCreateWidget ::
  "WidgetSystem \<Rightarrow> string \<Rightarrow> string \<Rightarrow> open_error + (nat \<times> WidgetSystem)" where
  "manager_getOrCreateWidget st factoryId opts =
     (case map_of (widgets st) (factoryId, opts) of
        Some existingWidget \<Rightarrow> Inr (existingWidget, st)
      | None \<Rightarrow>
          (case factories st factoryId of
             None \<Rightarrow> Inl (NoFactory factoryId)
           | Some factory \<Rightarrow>
               (case factory opts of
                  Inl e \<Rightarrow> Inl e
                | Inr w \<Rightarrow>
                    (let r = fresh_ref st
                     in Inr (r, st\<lparr>store := store st @ [(r, w)],
                                   widgets := widgets st @ [((factoryId, opts), r)],
                                   created := created st @ [(factoryId, r)]\<rparr>)))))"

text \<open>
  Modelled from the spec: \<open>ApplicationShell\<close> (\<open>./shell\<close>) is not among the sources.
  \<open>addWidget\<close> attaches the widget in the given area; \<open>activateWidget\<close> and
  \<open>revealWidget\<close> take the widget's id. Every call is recorded.
\<close>

definition shell_addWidget :: "WidgetSystem \<Rightarrow> nat \<Rightarrow> string \<Rightarrow> WidgetSystem" where
  "shell_addWidget st r area =
     st\<lparr>store := map (\<lambda>(r', w). if r' = r then (r', w\<lparr>isAttached := True\<rparr>) else (r', w)) (store st),
        shellCalls := shellCalls st @ [addWidget r area]\<rparr>"

definition shell_activateWidget :: "WidgetSystem \<Rightarrow> string \<Rightarrow> WidgetSystem" where
  "shell_activateWidget st i = st\<lparr>shellCalls := shellCalls st @ [activateWidget i]\<rparr>"

definition shell_revealWidget :: "WidgetSystem \<Rightarrow> string \<Rightarrow> WidgetSystem" where
  "shell_revealWidget st i = st\<lparr>shellCalls := shellCalls st @ [revealWidget i]\<rparr>"

subsection \<open>The handler's own methods\<close>

definition createWidgetOptions :: "URI \<Rightarrow> WidgetOpenerOptions option \<Rightarrow> string" where
  "createWidgetOptions uri opts = toString (withoutFragment uri)"

definition getWidget ::
  "WidgetSystem \<Rightarrow> string \<Rightarrow> URI \<Rightarrow> WidgetOpenerOptions option \<Rightarrow> nat option" where
  "getWidget st this_id uri opts =
     (let widgetOptions = createWidgetOptions uri opts
      in manager_getWidget st this_id widgetOptions)"

definition getByUri :: "WidgetSystem \<Rightarrow> string \<Rightarrow> URI \<Rightarrow> nat option" where
  "getByUri st this_id uri = getWidget st this_id uri None"

definition getOrCreateWidget ::
  "WidgetSystem \<Rightarrow> string \<Rightarrow> URI \<Rightarrow> WidgetOpenerOptions option
     \<Rightarrow> open_error + (nat \<times> WidgetSystem)" where
  "getOrCreateWidget st this_id uri opts =
     (let widgetOptions = createWidgetOptions uri opts
      in manager_getOrCreateWidget st this_id widgetOptions)"

text \<open>
  \<open>doOpen\<close>: \<open>op\<close> is \<open>{mode: 'activate', ...options}\<close>, so the mode is \<open>activate\<close>
  unless the options carry one. A reference the store does not hold cannot be passed
  in the source; the model leaves the state as it is there.
\<close>

definition doOpen :: "WidgetSystem \<Rightarrow> nat \<Rightarrow> WidgetOpenerOptions option \<Rightarrow> WidgetSystem" where
  "doOpen st r opts =
     (case map_of (store st) r of
        None \<Rightarrow> st
      | Some w \<Rightarrow>
          (let op_mode = (case opts of
                            None \<Rightarrow> mode_activate
                          | Some given \<Rightarrow> (case mode given of None \<Rightarrow> mode_activate | Some md \<Rightarrow> md));
               op_widgetOptions = (case opts of None \<Rightarrow> None | Some given \<Rightarrow> widgetOptions given);
               st1 = (if \<not> isAttached w
                      then shell_addWidget st r
                             (case op_widgetOptions of None \<Rightarrow> ''main'' | Some a \<Rightarrow> a)
                      else st)
           in if op_mode = mode_activate then shell_activateWidget st1 (widget_id w)
              else if op_mode = mode_reveal then shell_revealWidget st1 (widget_id w)
              else st1))"

definition open_widget ::
  "WidgetSystem \<Rightarrow> string \<Rightarrow> URI \<Rightarrow> WidgetOpenerOptions option
     \<Rightarrow> open_error + (nat \<times> WidgetSystem)" where
  "open_widget st this_id uri opts =
     (case getOrCreateWidget st this_id uri opts of
        Inl e \<Rightarrow> Inl e
      | Inr (w, st') \<Rightarrow> Inr (w, doOpen st' w opts))"


section \<open>Vocabulary of the properties\<close>

text \<open>
  The commands of the action nodes of a subtree, depth first and left to right: all of
  them (\<open>actionIds\<close>) and those that the registry reports visible (\<open>visibleLeaves\<close>).
  \<open>commandIds\<close> lists the commands of an item and of the items nested in it.
\<close>

fun visibleLeaves ::
  "('b, 'x) Collaborators_scheme \<Rightarrow> PhosphorCommandRegistry \<Rightarrow> MenuNode \<Rightarrow> string list" where
  "visibleLeaves ext reg (ActionMenuNode c l) = (if isVisible ext reg c then [c] else [])"
| "visibleLeaves ext reg (CompositeMenuNode lb sub ch) = concat (map (visibleLeaves ext reg) ch)"

fun actionIds :: "MenuNode \<Rightarrow> string list" where
  "actionIds (ActionMenuNode c l) = [c]"
| "actionIds (CompositeMenuNode lb sub ch) = concat (map actionIds ch)"

fun commandIds :: "IItemOptions \<Rightarrow> string list" where
  "commandIds (CommandItem c) = [c]"
| "commandIds SeparatorItem = []"
| "commandIds (SubmenuItem t its) = concat (map commandIds its)"

text \<open>
  A list of items is well separated when no separator is first, last, or next to another
  separator: \<open>separatorsBetween b xs\<close> scans \<open>xs\<close>, \<open>b\<close> telling whether the element
  before was an item other than a separator. An item is well formed when every submenu
  in it is non-empty, well separated and made of well-formed items.
\<close>

fun separatorsBetween :: "bool \<Rightarrow> IItemOptions list \<Rightarrow> bool" where
  "separatorsBetween b [] = b"
| "separatorsBetween b (SeparatorItem # xs) = (b \<and> separatorsBetween False xs)"
| "separatorsBetween b (x # xs) = separatorsBetween True xs"

definition wellSeparated :: "IItemOptions list \<Rightarrow> bool" where
  "wellSeparated xs = (xs = [] \<or> separatorsBetween False xs)"

fun wellFormed :: "IItemOptions \<Rightarrow> bool" where
  "wellFormed (SubmenuItem t its) = (its \<noteq> [] \<and> wellSeparated its \<and> list_all wellFormed its)"
| "wellFormed x = True"

definition countSeparators :: "IItemOptions list \<Rightarrow> nat" where
  "countSeparators xs = length (filter (\<lambda>x. x = SeparatorItem) xs)"

fun isGroup :: "MenuNode \<Rightarrow> bool" where
  "isGroup (CompositeMenuNode lb sub ch) = (\<not> sub)"
| "isGroup (ActionMenuNode c l) = False"

definition nonEmptyGroups ::
  "('b, 'x) Collaborators_scheme \<Rightarrow> PhosphorCommandRegistry \<Rightarrow> MenuNode list \<Rightarrow> MenuNode list" where
  "nonEmptyGroups ext reg gs = filter (\<lambda>g. buildSubMenus ext reg [] (children g) reg \<noteq> []) gs"

fun countNonEmptyGroups ::
  "('b, 'x) Collaborators_scheme \<Rightarrow> PhosphorCommandRegistry \<Rightarrow> MenuNode \<Rightarrow> nat" where
  "countNonEmptyGroups ext reg (ActionMenuNode c l) = 0"
| "countNonEmptyGroups ext reg (CompositeMenuNode lb sub ch) =
     (if \<not> sub \<and> buildSubMenus ext reg [] ch reg \<noteq> [] then 1 else 0)
     + sum_list (map (countNonEmptyGroups ext reg) ch)"

text \<open>
  What \<open>addPhosphorCommand\<close> passes to \<open>addKeyBinding\<close> for a command: the accelerator of
  the first binding, if the command has one. \<open>resolvedIds\<close> are the commands of the action
  nodes that the command registry knows.
\<close>

definition firstAccelerator ::
  "('b, 'x) Collaborators_scheme \<Rightarrow> string \<Rightarrow> IKeyBindingOptions list" where
  "firstAccelerator ext c =
     (case getKeybindingsForCommand ext c of
        [] \<Rightarrow> []
      | binding # _ \<Rightarrow> [\<lparr>command = c, keys = acceleratorFor ext binding, selector = ''.p-Widget''\<rparr>])"

definition resolvedIds :: "('b, 'x) Collaborators_scheme \<Rightarrow> MenuNode list \<Rightarrow> string list" where
  "resolvedIds ext ns = filter (\<lambda>c. getCommand ext c \<noteq> None) (concat (map actionIds ns))"

text \<open>Collaborators over bindings that are strings, for the concrete scenarios.\<close>

definition collaborators ::
  "string list \<Rightarrow> (string \<Rightarrow> bool) \<Rightarrow> (string \<Rightarrow> string list) \<Rightarrow> string Collaborators" where
  "collaborators ids vis kbs =
     \<lparr>registered = map (\<lambda>i. \<lparr>command_id = i, iconClass = None\<rparr>) ids,
      cmd_isEnabled = (\<lambda>_. True), cmd_isVisible = vis, cmd_isToggled = (\<lambda>_. False),
      getKeybindingsForCommand = kbs, acceleratorFor = (\<lambda>b. [b])\<rparr>"

definition entry :: "string \<Rightarrow> string \<Rightarrow> string \<times> ICommandOptions" where
  "entry i l = (i, \<lparr>target = i, label = l, icon = None\<rparr>)"

definition group_node :: "MenuNode list \<Rightarrow> MenuNode" where
  "group_node ch = CompositeMenuNode None False ch"

definition submenu_node :: "string \<Rightarrow> MenuNode list \<Rightarrow> MenuNode" where
  "submenu_node l ch = CompositeMenuNode (Some l) True ch"






section \<open>The projection \<open>buildSubMenus\<close>\<close>

subsection \<open>Induction over a list of nodes and the two steps of the loop\<close>

lemma MenuNode_list_induct [case_names Nil Action Composite]:
  assumes "P []"
    and "\<And>c l rest. P rest \<Longrightarrow> P (ActionMenuNode c l # rest)"
    and "\<And>lb sub ch rest. P ch \<Longrightarrow> P rest \<Longrightarrow> P (CompositeMenuNode lb sub ch # rest)"
  shows "P ns"
proof (induction ns rule: measure_induct_rule [where f = "size_list size"])
  case (less ns)
  show ?case
  proof (cases ns)
    case Nil
    then show ?thesis using assms(1) by simp
  next
    case (Cons n rest)
    show ?thesis
    proof (cases n)
      case (ActionMenuNode c l)
      then show ?thesis using Cons less assms(2) by simp
    next
      case (CompositeMenuNode lb sub ch)
      then show ?thesis using Cons less assms(3) by simp
    qed
  qed
qed

lemma buildSubMenus_Composite:
  "buildSubMenus ext opts acc (CompositeMenuNode lb sub ch # rest) cmds =
     (let submenu = buildSubMenus ext opts [] ch (if sub then opts else cmds) in
      if submenu = [] then buildSubMenus ext opts acc rest cmds
      else if sub
        then buildSubMenus ext opts
               (acc @ [SubmenuItem (title_of (CompositeMenuNode lb sub ch)) submenu]) rest cmds
        else buildSubMenus ext opts
               ((if acc = [] then [] else acc @ [SeparatorItem]) @ submenu) rest cmds)"
  by (cases ch) (simp_all add: Let_def)

lemma buildSubMenus_Action:
  "buildSubMenus ext opts acc (ActionMenuNode c l # rest) cmds =
     buildSubMenus ext opts (if isVisible ext cmds c then acc @ [CommandItem c] else acc) rest cmds"
  by simp

lemma buildSubMenus_append:
  "buildSubMenus ext opts acc (xs @ ys) cmds
     = buildSubMenus ext opts (buildSubMenus ext opts acc xs cmds) ys cmds"
proof (induction xs arbitrary: acc rule: MenuNode_list_induct)
  case Nil
  show ?case by simp
next
  case (Action c l rest)
  show ?case by (simp add: buildSubMenus_Action Action del: buildSubMenus.simps)
next
  case (Composite lb sub ch rest)
  show ?case by (simp add: buildSubMenus_Composite Composite(2) Let_def del: buildSubMenus.simps)
qed

lemma commandIds_buildSubMenus:
  "concat (map commandIds (buildSubMenus ext reg acc ns reg))
     = concat (map commandIds acc) @ concat (map (visibleLeaves ext reg) ns)"
proof (induction ns arbitrary: acc rule: MenuNode_list_induct)
  case Nil
  show ?case by simp
next
  case (Action c l rest)
  show ?case by (simp add: buildSubMenus_Action Action del: buildSubMenus.simps)
next
  case (Composite lb sub ch rest)
  have ch: "concat (map commandIds (buildSubMenus ext reg [] ch reg))
              = concat (map (visibleLeaves ext reg) ch)"
    using Composite(1) [of "[]"] by simp
  show ?case
  proof (cases "buildSubMenus ext reg [] ch reg = []")
    case True
    then have "concat (map (visibleLeaves ext reg) ch) = []" using ch by simp
    then show ?thesis
      using True by (simp add: buildSubMenus_Composite Composite(2) del: buildSubMenus.simps)
  next
    case False
    then show ?thesis
      using ch by (simp add: buildSubMenus_Composite Composite(2) Let_def del: buildSubMenus.simps)
  qed
qed

subsection \<open>The commands of a projection are the visible leaves, in order\<close>

lemma visibleLeaves_forced:
  "isVisible_forced reg \<Longrightarrow> visibleLeaves ext reg n = actionIds n"
  by (induction n) (auto simp add: isVisible_def intro: arg_cong [where f = concat])

lemma visibleLeaves_subset:
  "set (visibleLeaves ext reg n) = {c \<in> set (actionIds n). isVisible ext reg c}"
  by (induction n) auto





subsection \<open>Separators and submenus of a projection\<close>

lemma separatorsBetween_True: "separatorsBetween False xs \<Longrightarrow> separatorsBetween True xs"
  by (cases "(False, xs)" rule: separatorsBetween.cases) simp_all

lemma separatorsBetween_append:
  "separatorsBetween b xs \<Longrightarrow> separatorsBetween True ys \<Longrightarrow> separatorsBetween b (xs @ ys)"
  by (induction b xs rule: separatorsBetween.induct) simp_all

lemma wellSeparated_snoc:
  assumes "wellSeparated xs" and "x \<noteq> SeparatorItem"
  shows "wellSeparated (xs @ [x])"
proof -
  have one: "separatorsBetween b [x]" for b using assms(2) by (cases x) simp_all
  show ?thesis
  proof (cases "xs = []")
    case True
    then show ?thesis using one by (simp add: wellSeparated_def)
  next
    case False
    then have "separatorsBetween False xs" using assms(1) by (simp add: wellSeparated_def)
    then have "separatorsBetween False (xs @ [x])" using one separatorsBetween_append by blast
    then show ?thesis by (simp add: wellSeparated_def)
  qed
qed

lemma wellSeparated_group:
  assumes "wellSeparated xs" "wellSeparated ys" "ys \<noteq> []"
  shows "wellSeparated ((if xs = [] then [] else xs @ [SeparatorItem]) @ ys)"
proof (cases "xs = []")
  case True
  then show ?thesis using assms by simp
next
  case False
  then have x: "separatorsBetween False xs" using assms by (simp add: wellSeparated_def)
  have y: "separatorsBetween False ys" using assms by (simp add: wellSeparated_def)
  then have "separatorsBetween True (SeparatorItem # ys)" by simp
  then have "separatorsBetween False (xs @ SeparatorItem # ys)"
    using x separatorsBetween_append by blast
  then show ?thesis using False by (simp add: wellSeparated_def)
qed

lemma buildSubMenus_wellSeparated:
  "wellSeparated acc \<Longrightarrow> wellSeparated (buildSubMenus ext opts acc ns cmds)"
proof (induction ns arbitrary: acc cmds rule: MenuNode_list_induct)
  case Nil
  then show ?case by simp
next
  case (Action c l rest)
  have "wellSeparated (acc @ [CommandItem c])"
    using Action.prems by (intro wellSeparated_snoc) simp_all
  then show ?case
    using Action by (simp add: buildSubMenus_Action del: buildSubMenus.simps)
next
  case (Composite lb sub ch rest)
  define submenu where "submenu = buildSubMenus ext opts [] ch (if sub then opts else cmds)"
  have ws: "wellSeparated submenu"
    unfolding submenu_def by (rule Composite.IH(1)) (simp add: wellSeparated_def)
  have a: "wellSeparated (acc @ [SubmenuItem (title_of (CompositeMenuNode lb sub ch)) submenu])"
    using Composite.prems by (intro wellSeparated_snoc) simp_all
  have b: "submenu \<noteq> [] \<Longrightarrow>
           wellSeparated ((if acc = [] then [] else acc @ [SeparatorItem]) @ submenu)"
    using Composite.prems ws by (intro wellSeparated_group)
  have "wellSeparated (buildSubMenus ext opts acc' rest cmds)" if "wellSeparated acc'" for acc'
    using that by (rule Composite.IH(2))
  then show ?case
    unfolding buildSubMenus_Composite Let_def submenu_def [symmetric]
    using a b Composite.prems by (auto simp del: buildSubMenus.simps)
qed

lemma buildSubMenus_wellFormed:
  "list_all wellFormed acc \<Longrightarrow> list_all wellFormed (buildSubMenus ext opts acc ns cmds)"
proof (induction ns arbitrary: acc cmds rule: MenuNode_list_induct)
  case Nil
  then show ?case by simp
next
  case (Action c l rest)
  then show ?case by (simp add: buildSubMenus_Action del: buildSubMenus.simps)
next
  case (Composite lb sub ch rest)
  define submenu where "submenu = buildSubMenus ext opts [] ch (if sub then opts else cmds)"
  have ws: "wellSeparated submenu"
    unfolding submenu_def by (rule buildSubMenus_wellSeparated) (simp add: wellSeparated_def)
  have wf: "list_all wellFormed submenu"
    unfolding submenu_def by (rule Composite.IH(1)) simp
  have "list_all wellFormed (buildSubMenus ext opts acc' rest cmds)"
    if "list_all wellFormed acc'" for acc'
    using that by (rule Composite.IH(2))
  then show ?case
    unfolding buildSubMenus_Composite Let_def submenu_def [symmetric]
    using ws wf Composite.prems by (simp del: buildSubMenus.simps)
qed

lemma buildSubMenus_invisible:
  "\<forall>n \<in> set ns. visibleLeaves ext reg n = [] \<Longrightarrow> buildSubMenus ext reg acc ns reg = acc"
proof (induction ns arbitrary: acc rule: MenuNode_list_induct)
  case Nil
  then show ?case by simp
next
  case (Action c l rest)
  then show ?case by (simp add: buildSubMenus_Action del: buildSubMenus.simps split: if_splits)
next
  case (Composite lb sub ch rest)
  then show ?case by (simp add: buildSubMenus_Composite del: buildSubMenus.simps)
qed

lemma countSeparators_append:
  "countSeparators (xs @ ys) = countSeparators xs + countSeparators ys"
  by (simp add: countSeparators_def)

lemma countSeparators_groups:
  "\<forall>g \<in> set gs. isGroup g \<Longrightarrow>
   countSeparators (buildSubMenus ext reg acc gs reg)
     = countSeparators acc
       + (\<Sum>g\<leftarrow>gs. countSeparators (buildSubMenus ext reg [] (children g) reg))
       + (if acc = [] then length (nonEmptyGroups ext reg gs) - 1
          else length (nonEmptyGroups ext reg gs))"
proof (induction gs arbitrary: acc)
  case Nil
  then show ?case by (simp add: nonEmptyGroups_def)
next
  case (Cons g gs)
  then obtain lb ch where g: "g = CompositeMenuNode lb False ch"
    by (cases g) simp_all
  define submenu where "submenu = buildSubMenus ext reg [] ch reg"
  have rest: "\<forall>g \<in> set gs. isGroup g" using Cons.prems by simp
  show ?case
  proof (cases "submenu = []")
    case True
    then show ?thesis
      using Cons.IH [OF rest, of acc] g
      by (simp add: buildSubMenus_Composite nonEmptyGroups_def submenu_def countSeparators_def
               del: buildSubMenus.simps)
  next
    case False
    define acc' where "acc' = (if acc = [] then [] else acc @ [SeparatorItem]) @ submenu"
    have ne: "acc' \<noteq> []" using False by (simp add: acc'_def)
    have step: "buildSubMenus ext reg acc (g # gs) reg = buildSubMenus ext reg acc' gs reg"
      using False g
      by (simp add: buildSubMenus_Composite submenu_def acc'_def del: buildSubMenus.simps)
    have cnt: "countSeparators acc'
                 = countSeparators acc + countSeparators submenu + (if acc = [] then 0 else 1)"
      by (simp add: acc'_def countSeparators_def)
    have len: "length (nonEmptyGroups ext reg (g # gs)) = Suc (length (nonEmptyGroups ext reg gs))"
      using False g by (simp add: nonEmptyGroups_def submenu_def)
    have ch: "children g = ch" using g by simp
    show ?thesis
      unfolding step len
      using Cons.IH [OF rest, of acc'] ne
      by (simp add: cnt ch submenu_def del: buildSubMenus.simps)
  qed
qed


lemma countSeparators_no_groups:
  "\<forall>n \<in> set ns. \<not> isGroup n \<Longrightarrow>
   countSeparators (buildSubMenus ext opts acc ns cmds) = countSeparators acc"
proof (induction ns arbitrary: acc)
  case Nil
  then show ?case by simp
next
  case (Cons n ns)
  then have rest: "\<forall>n \<in> set ns. \<not> isGroup n" by simp
  show ?case
  proof (cases n)
    case (ActionMenuNode c l)
    then show ?thesis
      using Cons.IH [OF rest]
      by (simp add: buildSubMenus_Action countSeparators_def del: buildSubMenus.simps)
  next
    case (CompositeMenuNode lb sub ch)
    then have "sub" using Cons.prems by simp
    then show ?thesis
      using Cons.IH [OF rest] CompositeMenuNode
      by (simp add: buildSubMenus_Composite countSeparators_def Let_def del: buildSubMenus.simps)
  qed
qed

subsection \<open>The registry built by \<open>createPhosporCommands\<close>\<close>

lemma getCommand_id: "getCommand ext i = Some cmd \<Longrightarrow> command_id cmd = i"
  by (auto simp add: getCommand_def find_Some_iff)

lemma addPhosphorCommand_unresolved:
  "getCommand ext c = None \<Longrightarrow> addPhosphorCommand ext cmds (ActionMenuNode c l) = Inr cmds"
  by (simp add: addPhosphorCommand_def)

lemma addPhosphorCommand_resolved:
  assumes "getCommand ext c = Some cmd"
  shows "addPhosphorCommand ext cmds (ActionMenuNode c l) =
           (if map_of (commands cmds) c \<noteq> None then Inl (AlreadyRegistered c)
            else Inr (cmds\<lparr>commands := commands cmds
                                @ [(c, \<lparr>target = c, label = l, icon = iconClass cmd\<rparr>)],
                            keyBindings := keyBindings cmds @ firstAccelerator ext c\<rparr>))"
  using assms getCommand_id [OF assms]
  by (simp add: addPhosphorCommand_def addCommand_def addKeyBinding_def firstAccelerator_def
           split: list.splits)

lemma resolvedIds_Cons_Action:
  "resolvedIds ext (ActionMenuNode c l # rest)
     = (if getCommand ext c \<noteq> None then [c] else []) @ resolvedIds ext rest"
  by (simp add: resolvedIds_def)

lemma resolvedIds_Cons_Composite:
  "resolvedIds ext (CompositeMenuNode lb sub ch # rest) = resolvedIds ext ch @ resolvedIds ext rest"
  by (simp add: resolvedIds_def)

lemma addPhosphorCommands_Inr:
  "addPhosphorCommands ext cmds ns = Inr cmds' \<Longrightarrow>
     map fst (commands cmds') = map fst (commands cmds) @ resolvedIds ext ns
   \<and> keyBindings cmds' = keyBindings cmds @ concat (map (firstAccelerator ext) (resolvedIds ext ns))
   \<and> isVisible_forced cmds' = isVisible_forced cmds
   \<and> (distinct (map fst (commands cmds)) \<longrightarrow>
        distinct (map fst (commands cmds) @ resolvedIds ext ns))"
proof (induction ns arbitrary: cmds cmds' rule: MenuNode_list_induct)
  case Nil
  then show ?case by (simp add: resolvedIds_def)
next
  case (Action c l rest)
  show ?case
  proof (cases "getCommand ext c")
    case None
    then have "addPhosphorCommands ext cmds rest = Inr cmds'"
      using Action.prems by (simp add: addPhosphorCommand_unresolved)
    then show ?thesis
      using Action.IH [of cmds cmds'] None by (simp add: resolvedIds_Cons_Action)
  next
    case (Some cmd)
    define mid where "mid = cmds\<lparr>commands := commands cmds
                                @ [(c, \<lparr>target = c, label = l, icon = iconClass cmd\<rparr>)],
                            keyBindings := keyBindings cmds @ firstAccelerator ext c\<rparr>"
    have free: "map_of (commands cmds) c = None"
      using Action.prems Some by (auto simp add: addPhosphorCommand_resolved split: if_splits)
    then have notin: "c \<notin> set (map fst (commands cmds))"
      by (simp add: map_of_eq_None_iff)
    have "addPhosphorCommands ext mid rest = Inr cmds'"
      using Action.prems Some free by (simp add: addPhosphorCommand_resolved mid_def)
    from Action.IH [OF this] show ?thesis
      using Some notin by (auto simp add: resolvedIds_Cons_Action mid_def)
  qed
next
  case (Composite lb sub ch rest)
  then obtain mid where mid: "addPhosphorCommands ext cmds ch = Inr mid"
    and rest: "addPhosphorCommands ext mid rest = Inr cmds'"
    by (auto split: sum.splits)
  show ?case
    using Composite.IH(1) [OF mid] Composite.IH(2) [OF rest]
    by (auto simp add: resolvedIds_Cons_Composite)
qed

lemma addPhosphorCommands_target:
  "addPhosphorCommands ext cmds ns = Inr cmds' \<Longrightarrow> (i, opts) \<in> set (commands cmds') \<Longrightarrow>
   (i, opts) \<in> set (commands cmds) \<or> target opts = i"
proof (induction ns arbitrary: cmds cmds' rule: MenuNode_list_induct)
  case Nil
  then show ?case by simp
next
  case (Action c l rest)
  show ?case
  proof (cases "getCommand ext c")
    case None
    then have "addPhosphorCommands ext cmds rest = Inr cmds'"
      using Action.prems by (simp add: addPhosphorCommand_unresolved)
    then show ?thesis
      using Action.IH [of cmds cmds'] Action.prems(2) by simp
  next
    case (Some cmd)
    define mid where "mid = cmds\<lparr>commands := commands cmds
                                @ [(c, \<lparr>target = c, label = l, icon = iconClass cmd\<rparr>)],
                            keyBindings := keyBindings cmds @ firstAccelerator ext c\<rparr>"
    have free: "map_of (commands cmds) c = None"
      using Action.prems Some by (auto simp add: addPhosphorCommand_resolved split: if_splits)
    have "addPhosphorCommands ext mid rest = Inr cmds'"
      using Action.prems Some free by (simp add: addPhosphorCommand_resolved mid_def)
    from Action.IH [OF this Action.prems(2)] show ?thesis
      by (auto simp add: mid_def)
  qed
next
  case (Composite lb sub ch rest)
  then obtain mid where mid: "addPhosphorCommands ext cmds ch = Inr mid"
    and rest: "addPhosphorCommands ext mid rest = Inr cmds'"
    by (auto split: sum.splits)
  from Composite.IH(2) [OF rest Composite.prems(2)] show ?case
    using Composite.IH(1) [OF mid] by blast
qed

lemma firstAccelerator_command: "kb \<in> set (firstAccelerator ext k) \<Longrightarrow> command kb = k"
  by (auto simp add: firstAccelerator_def split: list.splits)

lemma filter_firstAccelerator:
  "filter (\<lambda>kb. command kb = c) (firstAccelerator ext k) = (if k = c then firstAccelerator ext k else [])"
  by (auto simp add: firstAccelerator_def split: list.splits)

lemma filter_accelerators:
  "distinct ks \<Longrightarrow>
   filter (\<lambda>kb. command kb = c) (concat (map (firstAccelerator ext) ks))
     = (if c \<in> set ks then firstAccelerator ext c else [])"
  by (induction ks) (auto simp add: filter_firstAccelerator)

section \<open>The claims about the projection\<close>

text \<open>
  Claim C1. A list of sibling subtrees none of which has a visible leaf projects to the
  empty list; wherever such subtrees stand among the children of a node, the node's
  projection is the one it has without them, whatever was accumulated before; and a
  projection never has an empty submenu, nor a separator that is first, last or next to
  another one, at any depth. Since \<open>visibleLeaves\<close> looks through the whole subtree, the
  pruning reaches every ancestor.
\<close>

theorem empty_subtrees_are_pruned:
  assumes "\<forall>n \<in> set ns. visibleLeaves ext reg n = []"
  shows "buildSubMenus ext reg [] ns reg = []
       \<and> buildSubMenus ext reg acc (pre @ ns @ post) reg
           = buildSubMenus ext reg acc (pre @ post) reg
       \<and> wellSeparated (buildSubMenus ext reg [] (pre @ ns @ post) reg)
       \<and> list_all wellFormed (buildSubMenus ext reg [] (pre @ ns @ post) reg)"
proof -
  have skip: "buildSubMenus ext reg acc' ns reg = acc'" for acc'
    using assms by (rule buildSubMenus_invisible)
  have "wellSeparated []" by (simp add: wellSeparated_def)
  then have ws: "wellSeparated (buildSubMenus ext reg [] (pre @ ns @ post) reg)"
    by (rule buildSubMenus_wellSeparated)
  have "list_all wellFormed []" by simp
  then have wf: "list_all wellFormed (buildSubMenus ext reg [] (pre @ ns @ post) reg)"
    by (rule buildSubMenus_wellFormed)
  show ?thesis
    using skip ws wf by (simp add: buildSubMenus_append)
qed

theorem empty_subtrees_are_pruned_witness:
  "visibleLeaves (collaborators [''cmdNew'', ''cmdCut''] (\<lambda>i. i \<noteq> ''cmdNew'') (\<lambda>_. []))
      \<lparr>commands = [entry ''cmdNew'' ''New'', entry ''cmdCut'' ''Cut''], keyBindings = [],
       isVisible_forced = False\<rparr>
      (submenu_node ''File'' [ActionMenuNode ''cmdNew'' ''New'']) = []
   \<and> visibleLeaves (collaborators [''cmdNew'', ''cmdCut''] (\<lambda>i. i \<noteq> ''cmdNew'') (\<lambda>_. []))
      \<lparr>commands = [entry ''cmdNew'' ''New'', entry ''cmdCut'' ''Cut''], keyBindings = [],
       isVisible_forced = False\<rparr>
      (group_node [submenu_node ''Recent'' [ActionMenuNode ''cmdNew'' ''New'']]) = []
   \<and> buildSubMenus (collaborators [''cmdNew'', ''cmdCut''] (\<lambda>i. i \<noteq> ''cmdNew'') (\<lambda>_. []))
        \<lparr>commands = [entry ''cmdNew'' ''New'', entry ''cmdCut'' ''Cut''], keyBindings = [],
         isVisible_forced = False\<rparr> []
        ([group_node [ActionMenuNode ''cmdCut'' ''Cut'']]
         @ [submenu_node ''File'' [ActionMenuNode ''cmdNew'' ''New''],
            group_node [submenu_node ''Recent'' [ActionMenuNode ''cmdNew'' ''New'']]]
         @ [])
        \<lparr>commands = [entry ''cmdNew'' ''New'', entry ''cmdCut'' ''Cut''], keyBindings = [],
         isVisible_forced = False\<rparr>
       = [CommandItem ''cmdCut'']"
  using empty_subtrees_are_pruned
    [of "[submenu_node ''File'' [ActionMenuNode ''cmdNew'' ''New''],
          group_node [submenu_node ''Recent'' [ActionMenuNode ''cmdNew'' ''New'']]]"
        "collaborators [''cmdNew'', ''cmdCut''] (\<lambda>i. i \<noteq> ''cmdNew'') (\<lambda>_. [])"
        "\<lparr>commands = [entry ''cmdNew'' ''New'', entry ''cmdCut'' ''Cut''], keyBindings = [],
          isVisible_forced = False\<rparr>"
        "[]" "[group_node [ActionMenuNode ''cmdCut'' ''Cut'']]" "[]"]
  by (simp add: collaborators_def entry_def group_node_def submenu_node_def isVisible_def)

text \<open>
  Claim C2, as amended. A group whose own projection is not empty puts exactly one
  separator before its items when the list accumulated so far is not empty, and none
  when it is empty; an empty group, an action and a submenu put no separator in that list.
  For sibling groups \<open>gs\<close> projected from the empty list, the number of separators is the
  number of non-empty groups minus one, plus the separators that the groups' own
  projections contain (none when no group has a group among its children); the result has
  no separator that is first, last or next to another one. With both commands visible,
  the model \<open>Group[Action(cmdA), Group[Action(cmdB)]]\<close> projects to
  \<open>[Command(cmdA), Separator, Command(cmdB)]\<close>.
\<close>

theorem separators_between_groups:
  assumes "\<forall>g \<in> set gs. isGroup g"
  shows "countSeparators (buildSubMenus ext reg [] gs reg)
           = (\<Sum>g\<leftarrow>gs. countSeparators (buildSubMenus ext reg [] (children g) reg))
             + (length (nonEmptyGroups ext reg gs) - 1)
       \<and> ((\<forall>g \<in> set gs. \<forall>n \<in> set (children g). \<not> isGroup n) \<longrightarrow>
            countSeparators (buildSubMenus ext reg [] gs reg)
              = length (nonEmptyGroups ext reg gs) - 1)
       \<and> wellSeparated (buildSubMenus ext reg [] gs reg)
       \<and> buildSubMenus ext reg acc (CompositeMenuNode lb False ch # rest) reg
           = (if buildSubMenus ext reg [] ch reg = [] then buildSubMenus ext reg acc rest reg
              else buildSubMenus ext reg
                     ((if acc = [] then [] else acc @ [SeparatorItem])
                      @ buildSubMenus ext reg [] ch reg) rest reg)
       \<and> ((\<forall>n \<in> set ns. \<not> isGroup n) \<longrightarrow>
            countSeparators (buildSubMenus ext reg acc ns reg) = countSeparators acc)
       \<and> (isVisible ext reg cmdA \<and> isVisible ext reg cmdB \<longrightarrow>
            buildSubMenus ext reg []
              (children (CompositeMenuNode lb False
                 [ActionMenuNode cmdA la, CompositeMenuNode lG False [ActionMenuNode cmdB lB]]))
              reg
              = [CommandItem cmdA, SeparatorItem, CommandItem cmdB])"
proof -
  have count: "countSeparators (buildSubMenus ext reg [] gs reg)
           = (\<Sum>g\<leftarrow>gs. countSeparators (buildSubMenus ext reg [] (children g) reg))
             + (length (nonEmptyGroups ext reg gs) - 1)"
    using countSeparators_groups [OF assms, of ext reg "[]"] by (simp add: countSeparators_def)
  have flat: "countSeparators (buildSubMenus ext reg [] gs reg)
              = length (nonEmptyGroups ext reg gs) - 1"
    if "\<forall>g \<in> set gs. \<forall>n \<in> set (children g). \<not> isGroup n"
  proof -
    have "countSeparators (buildSubMenus ext reg [] (children g) reg) = 0" if "g \<in> set gs" for g
      using countSeparators_no_groups [of "children g" ext reg "[]" reg] that
        \<open>\<forall>g \<in> set gs. \<forall>n \<in> set (children g). \<not> isGroup n\<close>
      by (simp add: countSeparators_def)
    then have "(\<Sum>g\<leftarrow>gs. countSeparators (buildSubMenus ext reg [] (children g) reg)) = 0"
      by (simp add: sum_list_eq_0_iff)
    then show ?thesis using count by simp
  qed
  have "wellSeparated []" by (simp add: wellSeparated_def)
  then have ws: "wellSeparated (buildSubMenus ext reg [] gs reg)"
    by (rule buildSubMenus_wellSeparated)
  have step: "buildSubMenus ext reg acc (CompositeMenuNode lb False ch # rest) reg
           = (if buildSubMenus ext reg [] ch reg = [] then buildSubMenus ext reg acc rest reg
              else buildSubMenus ext reg
                     ((if acc = [] then [] else acc @ [SeparatorItem])
                      @ buildSubMenus ext reg [] ch reg) rest reg)"
    by (simp add: buildSubMenus_Composite del: buildSubMenus.simps)
  have others: "countSeparators (buildSubMenus ext reg acc ns reg) = countSeparators acc"
    if "\<forall>n \<in> set ns. \<not> isGroup n"
    using that by (rule countSeparators_no_groups)
  have scenario: "buildSubMenus ext reg []
              (children (CompositeMenuNode lb False
                 [ActionMenuNode cmdA la, CompositeMenuNode lG False [ActionMenuNode cmdB lB]]))
              reg
              = [CommandItem cmdA, SeparatorItem, CommandItem cmdB]"
    if "isVisible ext reg cmdA \<and> isVisible ext reg cmdB"
    using that by simp
  show ?thesis
    using count flat ws step others scenario by blast
qed


theorem separators_between_groups_witness:
  "isGroup (group_node [ActionMenuNode ''cmdA'' ''A''])
   \<and> isGroup (group_node [])
   \<and> isGroup (group_node [ActionMenuNode ''cmdB'' ''B'', submenu_node ''More'' [ActionMenuNode ''cmdA'' ''A'']])
   \<and> \<not> isGroup (ActionMenuNode ''cmdA'' ''A'')
   \<and> \<not> isGroup (ActionMenuNode ''cmdB'' ''B'')
   \<and> \<not> isGroup (submenu_node ''More'' [ActionMenuNode ''cmdA'' ''A''])
   \<and> isVisible (collaborators [''cmdA'', ''cmdB''] (\<lambda>_. True) (\<lambda>_. []))
        \<lparr>commands = [entry ''cmdA'' ''A'', entry ''cmdB'' ''B''], keyBindings = [],
         isVisible_forced = False\<rparr> ''cmdA''
   \<and> isVisible (collaborators [''cmdA'', ''cmdB''] (\<lambda>_. True) (\<lambda>_. []))
        \<lparr>commands = [entry ''cmdA'' ''A'', entry ''cmdB'' ''B''], keyBindings = [],
         isVisible_forced = False\<rparr> ''cmdB''
   \<and> countSeparators
        (buildSubMenus (collaborators [''cmdA'', ''cmdB''] (\<lambda>_. True) (\<lambda>_. []))
           \<lparr>commands = [entry ''cmdA'' ''A'', entry ''cmdB'' ''B''], keyBindings = [],
            isVisible_forced = False\<rparr> []
           [group_node [ActionMenuNode ''cmdA'' ''A''], group_node [],
            group_node [ActionMenuNode ''cmdB'' ''B'',
                        submenu_node ''More'' [ActionMenuNode ''cmdA'' ''A'']]]
           \<lparr>commands = [entry ''cmdA'' ''A'', entry ''cmdB'' ''B''], keyBindings = [],
            isVisible_forced = False\<rparr>)
       = 1
   \<and> buildSubMenus (collaborators [''cmdA'', ''cmdB''] (\<lambda>_. True) (\<lambda>_. []))
        \<lparr>commands = [entry ''cmdA'' ''A'', entry ''cmdB'' ''B''], keyBindings = [],
         isVisible_forced = False\<rparr> []
        (children (CompositeMenuNode None False
           [ActionMenuNode ''cmdA'' ''A'', CompositeMenuNode None False [ActionMenuNode ''cmdB'' ''B'']]))
        \<lparr>commands = [entry ''cmdA'' ''A'', entry ''cmdB'' ''B''], keyBindings = [],
         isVisible_forced = False\<rparr>
       = [CommandItem ''cmdA'', SeparatorItem, CommandItem ''cmdB'']"
  using separators_between_groups
    [where gs = "[group_node [ActionMenuNode ''cmdA'' ''A''], group_node [],
                  group_node [ActionMenuNode ''cmdB'' ''B'',
                              submenu_node ''More'' [ActionMenuNode ''cmdA'' ''A'']]]"
       and ext = "collaborators [''cmdA'', ''cmdB''] (\<lambda>_. True) (\<lambda>_. [])"
       and reg = "\<lparr>commands = [entry ''cmdA'' ''A'', entry ''cmdB'' ''B''], keyBindings = [],
                   isVisible_forced = False\<rparr>"
       and acc = "[]" and lb = None and ch = "[]" and rest = "[]"
       and ns = "[ActionMenuNode ''cmdA'' ''A'']"
       and cmdA = "''cmdA''" and cmdB = "''cmdB''" and la = "''A''" and lG = None and lB = "''B''"]
  by (simp add: collaborators_def entry_def group_node_def submenu_node_def isVisible_def
        nonEmptyGroups_def countSeparators_def)

text \<open>
  The count as claim C2 states it fails for groups that hold groups: the two sibling
  groups below are both non-empty and their projection
  \<open>[cmdA, Separator, cmdB, Separator, cmdC]\<close> has two separators, which is neither the
  number of non-empty sibling groups minus one nor the number of non-empty groups at any
  depth minus one.
\<close>

theorem separator_count_counterexample:
  "isGroup (group_node [ActionMenuNode ''cmdA'' ''A'', group_node [ActionMenuNode ''cmdB'' ''B'']])
   \<and> isGroup (group_node [group_node [ActionMenuNode ''cmdC'' ''C'']])
   \<and> countSeparators
        (buildSubMenus (collaborators [''cmdA'', ''cmdB'', ''cmdC''] (\<lambda>_. True) (\<lambda>_. []))
           \<lparr>commands = [entry ''cmdA'' ''A'', entry ''cmdB'' ''B'', entry ''cmdC'' ''C''],
            keyBindings = [], isVisible_forced = False\<rparr> []
           [group_node [ActionMenuNode ''cmdA'' ''A'', group_node [ActionMenuNode ''cmdB'' ''B'']],
            group_node [group_node [ActionMenuNode ''cmdC'' ''C'']]]
           \<lparr>commands = [entry ''cmdA'' ''A'', entry ''cmdB'' ''B'', entry ''cmdC'' ''C''],
            keyBindings = [], isVisible_forced = False\<rparr>)
       \<noteq> length (nonEmptyGroups (collaborators [''cmdA'', ''cmdB'', ''cmdC''] (\<lambda>_. True) (\<lambda>_. []))
           \<lparr>commands = [entry ''cmdA'' ''A'', entry ''cmdB'' ''B'', entry ''cmdC'' ''C''],
            keyBindings = [], isVisible_forced = False\<rparr>
           [group_node [ActionMenuNode ''cmdA'' ''A'', group_node [ActionMenuNode ''cmdB'' ''B'']],
            group_node [group_node [ActionMenuNode ''cmdC'' ''C'']]]) - 1
   \<and> countSeparators
        (buildSubMenus (collaborators [''cmdA'', ''cmdB'', ''cmdC''] (\<lambda>_. True) (\<lambda>_. []))
           \<lparr>commands = [entry ''cmdA'' ''A'', entry ''cmdB'' ''B'', entry ''cmdC'' ''C''],
            keyBindings = [], isVisible_forced = False\<rparr> []
           [group_node [ActionMenuNode ''cmdA'' ''A'', group_node [ActionMenuNode ''cmdB'' ''B'']],
            group_node [group_node [ActionMenuNode ''cmdC'' ''C'']]]
           \<lparr>commands = [entry ''cmdA'' ''A'', entry ''cmdB'' ''B'', entry ''cmdC'' ''C''],
            keyBindings = [], isVisible_forced = False\<rparr>)
       \<noteq> sum_list (map (countNonEmptyGroups
              (collaborators [''cmdA'', ''cmdB'', ''cmdC''] (\<lambda>_. True) (\<lambda>_. []))
              \<lparr>commands = [entry ''cmdA'' ''A'', entry ''cmdB'' ''B'', entry ''cmdC'' ''C''],
               keyBindings = [], isVisible_forced = False\<rparr>)
           [group_node [ActionMenuNode ''cmdA'' ''A'', group_node [ActionMenuNode ''cmdB'' ''B'']],
            group_node [group_node [ActionMenuNode ''cmdC'' ''C'']]]) - 1"
  by (simp add: collaborators_def entry_def group_node_def isVisible_def
        nonEmptyGroups_def countSeparators_def)

section \<open>The claims about the registry built for a menu\<close>

text \<open>
  Claim C5. When \<open>createPhosporCommands\<close> returns a registry, the key bindings it holds
  for a command are: for a command that the command registry resolves and an action
  node of the menu refers to, exactly one binding whose keys are \<open>acceleratorFor\<close> of the
  first binding the keybinding registry returns, or none when it returns no binding;
  for any other command, none.
\<close>

theorem first_keybinding_only:
  assumes "createPhosporCommands ext m = Inr reg"
  shows "filter (\<lambda>kb. command kb = c) (keyBindings reg)
           = (if getCommand ext c \<noteq> None \<and> c \<in> set (concat (map actionIds (children m)))
              then (case getKeybindingsForCommand ext c of
                      [] \<Rightarrow> []
                    | binding # _ \<Rightarrow>
                        [\<lparr>command = c, keys = acceleratorFor ext binding, selector = ''.p-Widget''\<rparr>])
              else [])"
proof -
  have r: "addPhosphorCommands ext new_PhosphorCommandRegistry (children m) = Inr reg"
    using assms by (simp add: createPhosporCommands_def)
  have keys: "map fst (commands reg) = resolvedIds ext (children m)"
    and kbs: "keyBindings reg = concat (map (firstAccelerator ext) (resolvedIds ext (children m)))"
    and d: "distinct (resolvedIds ext (children m))"
    using addPhosphorCommands_Inr [OF r] by (simp_all add: new_PhosphorCommandRegistry_def)
  from d have "filter (\<lambda>kb. command kb = c) (keyBindings reg)
               = (if c \<in> set (resolvedIds ext (children m)) then firstAccelerator ext c else [])"
    unfolding kbs by (rule filter_accelerators)
  then show ?thesis
    by (simp add: resolvedIds_def firstAccelerator_def)
qed


theorem first_keybinding_only_witness:
  "createPhosporCommands
     (collaborators [''cmdSave'', ''cmdCopy'']
        (\<lambda>_. True) (\<lambda>i. if i = ''cmdSave'' then [''ctrl+s'', ''ctrl+shift+s''] else []))
     (group_node [ActionMenuNode ''cmdSave'' ''Save'', ActionMenuNode ''cmdGone'' ''Gone'',
                  submenu_node ''Edit'' [ActionMenuNode ''cmdCopy'' ''Copy'']])
     = Inr \<lparr>commands = [entry ''cmdSave'' ''Save'', entry ''cmdCopy'' ''Copy''],
            keyBindings = [\<lparr>command = ''cmdSave'', keys = [''ctrl+s''], selector = ''.p-Widget''\<rparr>],
            isVisible_forced = False\<rparr>
   \<and> filter (\<lambda>kb. command kb = ''cmdSave'')
        (keyBindings \<lparr>commands = [entry ''cmdSave'' ''Save'', entry ''cmdCopy'' ''Copy''],
            keyBindings = [\<lparr>command = ''cmdSave'', keys = [''ctrl+s''], selector = ''.p-Widget''\<rparr>],
            isVisible_forced = False\<rparr>)
       = [\<lparr>command = ''cmdSave'', keys = [''ctrl+s''], selector = ''.p-Widget''\<rparr>]"
  using first_keybinding_only
    [of "collaborators [''cmdSave'', ''cmdCopy'']
           (\<lambda>_. True) (\<lambda>i. if i = ''cmdSave'' then [''ctrl+s'', ''ctrl+shift+s''] else [])"
        "group_node [ActionMenuNode ''cmdSave'' ''Save'', ActionMenuNode ''cmdGone'' ''Gone'',
                     submenu_node ''Edit'' [ActionMenuNode ''cmdCopy'' ''Copy'']]"
        "\<lparr>commands = [entry ''cmdSave'' ''Save'', entry ''cmdCopy'' ''Copy''],
            keyBindings = [\<lparr>command = ''cmdSave'', keys = [''ctrl+s''], selector = ''.p-Widget''\<rparr>],
            isVisible_forced = False\<rparr>"
        "''cmdSave''"]
  by (simp add: collaborators_def entry_def group_node_def submenu_node_def
        createPhosporCommands_def new_PhosphorCommandRegistry_def addPhosphorCommand_def
        addCommand_def addKeyBinding_def getCommand_def)

section \<open>The claims about visibility\<close>

lemma new_DynamicMenuWidget_items:
  "new_DynamicMenuWidget ext m reg
     = \<lparr>menu = m, options = reg, title_label = title_of m,
        items = buildSubMenus ext reg [] (children m) reg\<rparr>"
  by (simp add: new_DynamicMenuWidget_def updateSubMenus_def)

lemma aboutToShow_items:
  "aboutToShow ext w = w\<lparr>items := buildSubMenus ext (options w) [] (children (menu w)) (options w)\<rparr>"
  by (simp add: aboutToShow_def clearItems_def updateSubMenus_def)

lemma createPhosporCommands_Inr:
  assumes "createPhosporCommands ext m = Inr reg"
  shows "map fst (commands reg) = resolvedIds ext (children m)"
    and "\<not> isVisible_forced reg"
    and "map_of (commands reg) c = Some e \<Longrightarrow> target e = c"
proof -
  have r: "addPhosphorCommands ext new_PhosphorCommandRegistry (children m) = Inr reg"
    using assms by (simp add: createPhosporCommands_def)
  show "map fst (commands reg) = resolvedIds ext (children m)" and "\<not> isVisible_forced reg"
    using addPhosphorCommands_Inr [OF r] by (simp_all add: new_PhosphorCommandRegistry_def)
  show "target e = c" if "map_of (commands reg) c = Some e"
    using addPhosphorCommands_target [OF r map_of_SomeD [OF that]]
    by (simp add: new_PhosphorCommandRegistry_def)
qed

lemma isVisible_created:
  assumes "createPhosporCommands ext0 m = Inr reg"
  shows "isVisible ext reg c = (c \<in> set (resolvedIds ext0 (children m)) \<and> cmd_isVisible ext c)"
proof (cases "map_of (commands reg) c")
  case None
  then have "c \<notin> set (map fst (commands reg))" by (simp add: map_of_eq_None_iff)
  then show ?thesis
    using None createPhosporCommands_Inr(1,2) [OF assms] by (simp add: isVisible_def)
next
  case (Some e)
  then have "c \<in> set (map fst (commands reg))" by (metis map_of_eq_None_iff option.distinct(1) set_map)
  then show ?thesis
    using Some createPhosporCommands_Inr [OF assms] by (simp add: isVisible_def)
qed

lemma unresolved_not_in_context_menu:
  assumes "createPhosporCommands ext0 m = Inr reg" and "getCommand ext0 c = None"
  shows "c \<notin> set (concat (map commandIds (buildSubMenus ext reg [] ns reg)))"
proof -
  have "\<not> isVisible ext reg c"
    using assms by (simp add: isVisible_created resolvedIds_def)
  then have "c \<notin> set (concat (map (visibleLeaves ext reg) ns))"
    by (simp add: visibleLeaves_subset)
  then show ?thesis by (simp add: commandIds_buildSubMenus)
qed


text \<open>
  Claim C3. Let the registry of a context menu (one whose \<open>isVisible\<close> has not been
  replaced) hold an entry for the command \<open>c\<close> whose \<open>isVisible\<close> closure returns false,
  and let an action node for \<open>c\<close> occur among the nodes \<open>ns\<close> or below them. Then no item
  of the projection under that registry carries \<open>c\<close>, at any depth, while the projection
  under the same registry with \<open>isVisible\<close> replaced, the one of the menu bar, has an item
  that carries \<open>c\<close>; for an action node that is the next child, the first loop skips it
  and the second pushes its \<open>Command\<close> item. \<open>createContextMenu\<close> and \<open>createMenuBar\<close>
  build their widgets with exactly these two registries.
\<close>

theorem menu_bar_forces_visibility:
  assumes "map_of (commands reg) c = Some e" and "\<not> cmd_isVisible ext (target e)"
    and "\<not> isVisible_forced reg" and "c \<in> set (concat (map actionIds ns))"
  shows "c \<notin> set (concat (map commandIds (buildSubMenus ext reg [] ns reg)))
       \<and> c \<in> set (concat (map commandIds
                 (buildSubMenus ext (reg\<lparr>isVisible_forced := True\<rparr>) [] ns
                    (reg\<lparr>isVisible_forced := True\<rparr>))))
       \<and> buildSubMenus ext reg acc (ActionMenuNode c l # rest) reg
           = buildSubMenus ext reg acc rest reg
       \<and> buildSubMenus ext (reg\<lparr>isVisible_forced := True\<rparr>) acc (ActionMenuNode c l # rest)
             (reg\<lparr>isVisible_forced := True\<rparr>)
           = buildSubMenus ext (reg\<lparr>isVisible_forced := True\<rparr>) (acc @ [CommandItem c]) rest
               (reg\<lparr>isVisible_forced := True\<rparr>)
       \<and> (createPhosporCommands ext model = Inr reg \<longrightarrow>
            createContextMenu ext model = Inr (new_DynamicMenuWidget ext model reg)
            \<and> createMenuBar ext model
                = Inr (map (\<lambda>m. new_DynamicMenuWidget ext m (reg\<lparr>isVisible_forced := True\<rparr>))
                        (filter isCompositeMenuNode (children model))))"
proof -
  have hidden: "\<not> isVisible ext reg c"
    using assms(1,2,3) by (simp add: isVisible_def)
  have shown: "isVisible ext (reg\<lparr>isVisible_forced := True\<rparr>) c"
    by (simp add: isVisible_def)
  have "c \<notin> set (concat (map (visibleLeaves ext reg) ns))"
    using hidden by (simp add: visibleLeaves_subset)
  then have a: "c \<notin> set (concat (map commandIds (buildSubMenus ext reg [] ns reg)))"
    by (simp add: commandIds_buildSubMenus)
  have "map (visibleLeaves ext (reg\<lparr>isVisible_forced := True\<rparr>)) ns = map actionIds ns"
    by (simp add: visibleLeaves_forced)
  then have b: "c \<in> set (concat (map commandIds
                 (buildSubMenus ext (reg\<lparr>isVisible_forced := True\<rparr>) [] ns
                    (reg\<lparr>isVisible_forced := True\<rparr>))))"
    using assms(4) by (simp add: commandIds_buildSubMenus)
  have f: "createContextMenu ext model = Inr (new_DynamicMenuWidget ext model reg)
            \<and> createMenuBar ext model
                = Inr (map (\<lambda>m. new_DynamicMenuWidget ext m (reg\<lparr>isVisible_forced := True\<rparr>))
                        (filter isCompositeMenuNode (children model)))"
    if "createPhosporCommands ext model = Inr reg"
    using that by (simp add: createContextMenu_def createMenuBar_def)
  show ?thesis
    using a b hidden shown f by (simp add: buildSubMenus_Action del: buildSubMenus.simps)
qed

theorem menu_bar_forces_visibility_witness:
  "map_of (commands \<lparr>commands = [entry ''cmdNew'' ''New''], keyBindings = [], isVisible_forced = False\<rparr>)
      ''cmdNew'' = Some \<lparr>target = ''cmdNew'', label = ''New'', icon = None\<rparr>
   \<and> \<not> cmd_isVisible (collaborators [''cmdNew''] (\<lambda>_. False) (\<lambda>_. []))
          (target \<lparr>target = ''cmdNew'', label = ''New'', icon = None\<rparr>)
   \<and> createPhosporCommands (collaborators [''cmdNew''] (\<lambda>_. False) (\<lambda>_. []))
        (group_node [submenu_node ''File'' [ActionMenuNode ''cmdNew'' ''New'']])
       = Inr \<lparr>commands = [entry ''cmdNew'' ''New''], keyBindings = [], isVisible_forced = False\<rparr>
   \<and> createContextMenu (collaborators [''cmdNew''] (\<lambda>_. False) (\<lambda>_. []))
        (group_node [submenu_node ''File'' [ActionMenuNode ''cmdNew'' ''New'']])
       = Inr \<lparr>menu = group_node [submenu_node ''File'' [ActionMenuNode ''cmdNew'' ''New'']],
              options = \<lparr>commands = [entry ''cmdNew'' ''New''], keyBindings = [],
                         isVisible_forced = False\<rparr>,
              title_label = [], items = []\<rparr>
   \<and> createMenuBar (collaborators [''cmdNew''] (\<lambda>_. False) (\<lambda>_. []))
        (group_node [submenu_node ''File'' [ActionMenuNode ''cmdNew'' ''New'']])
       = Inr [\<lparr>menu = submenu_node ''File'' [ActionMenuNode ''cmdNew'' ''New''],
               options = \<lparr>commands = [entry ''cmdNew'' ''New''], keyBindings = [],
                          isVisible_forced = True\<rparr>,
               title_label = ''File'', items = [CommandItem ''cmdNew'']\<rparr>]"
  using menu_bar_forces_visibility
    [where reg = "\<lparr>commands = [entry ''cmdNew'' ''New''], keyBindings = [], isVisible_forced = False\<rparr>"
       and c = "''cmdNew''" and e = "\<lparr>target = ''cmdNew'', label = ''New'', icon = None\<rparr>"
       and ext = "collaborators [''cmdNew''] (\<lambda>_. False) (\<lambda>_. [])"
       and ns = "[submenu_node ''File'' [ActionMenuNode ''cmdNew'' ''New'']]"
       and acc = "[]" and l = "''New''" and rest = "[]"
       and model = "group_node [submenu_node ''File'' [ActionMenuNode ''cmdNew'' ''New'']]"]
  by (simp add: collaborators_def entry_def group_node_def submenu_node_def
        createPhosporCommands_def new_PhosphorCommandRegistry_def addPhosphorCommand_def
        addCommand_def addKeyBinding_def getCommand_def new_DynamicMenuWidget_items
        title_of_def isVisible_def)

lemma unresolved_command_context_menu:
  assumes "createPhosporCommands ext0 m = Inr reg" and "getCommand ext0 c = None"
  shows "map_of (commands reg) c = None"
    and "addPhosphorCommand ext0 cmds (ActionMenuNode c l) = Inr cmds"
    and "buildSubMenus ext reg acc (ActionMenuNode c l # rest) reg
           = buildSubMenus ext reg acc rest reg"
proof -
  have "c \<notin> set (map fst (commands reg))"
    using assms createPhosporCommands_Inr(1) [OF assms(1)] by (simp add: resolvedIds_def)
  then show none: "map_of (commands reg) c = None"
    by (simp add: map_of_eq_None_iff)
  then have "\<not> isVisible ext reg c"
    using createPhosporCommands_Inr(2) [OF assms(1)] by (simp add: isVisible_def)
  then show "buildSubMenus ext reg acc (ActionMenuNode c l # rest) reg
           = buildSubMenus ext reg acc rest reg"
    by (simp add: buildSubMenus_Action del: buildSubMenus.simps)
  show "addPhosphorCommand ext0 cmds (ActionMenuNode c l) = Inr cmds"
    using assms(2) by (rule addPhosphorCommand_unresolved)
qed

text \<open>
  Claim C4. No projection is to hold a \<open>Command\<close> item for an action whose command the
  command registry does not resolve, in a context menu and in the menu bar alike, and
  without an error. \<open>addPhosphorCommand\<close> returns before registering such a command, and
  under the registry of a context menu the loop passes over the action
  (\<open>unresolved_not_in_context_menu\<close>, \<open>unresolved_command_context_menu\<close>). In the menu bar
  the code does not keep to the claim: \<open>createMenuBar\<close> replaces \<open>isVisible\<close> after the
  registry is built, the replaced method answers true also for an id that was never
  registered, and the loop pushes the item. Evaluated on a command registry that does not
  know \<open>cmdGone\<close>: the \<open>File\<close> menu of the menu bar holds a \<open>Command\<close> item for \<open>cmdGone\<close>,
  while the context menu built from the same node holds none.
\<close>

theorem menu_bar_emits_unresolved_command:
  "getCommand (collaborators [] (\<lambda>_. True) (\<lambda>_. [])) ''cmdGone'' = None
   \<and> createMenuBar (collaborators [] (\<lambda>_. True) (\<lambda>_. []))
        (group_node [submenu_node ''File'' [ActionMenuNode ''cmdGone'' ''Gone'']])
       = Inr [\<lparr>menu = submenu_node ''File'' [ActionMenuNode ''cmdGone'' ''Gone''],
               options = \<lparr>commands = [], keyBindings = [], isVisible_forced = True\<rparr>,
               title_label = ''File'', items = [CommandItem ''cmdGone'']\<rparr>]
   \<and> createContextMenu (collaborators [] (\<lambda>_. True) (\<lambda>_. []))
        (submenu_node ''File'' [ActionMenuNode ''cmdGone'' ''Gone''])
       = Inr \<lparr>menu = submenu_node ''File'' [ActionMenuNode ''cmdGone'' ''Gone''],
              options = \<lparr>commands = [], keyBindings = [], isVisible_forced = False\<rparr>,
              title_label = ''File'', items = []\<rparr>"
  by (simp add: collaborators_def group_node_def submenu_node_def
        createMenuBar_def createContextMenu_def
        createPhosporCommands_def new_PhosphorCommandRegistry_def addPhosphorCommand_def
        getCommand_def new_DynamicMenuWidget_items title_of_def isVisible_def)

section \<open>The claims about the life cycle of a view\<close>

text \<open>
  Claim C9. Showing a view twice against the same model, registry and collaborators
  gives the same view as showing it once; the items shown are the projection of the
  model and depend on nothing that was shown before; and showing a view that was just
  constructed changes nothing.
\<close>

theorem projection_is_repeatable:
  "aboutToShow ext (aboutToShow ext w) = aboutToShow ext w
   \<and> items (aboutToShow ext w) = buildSubMenus ext (options w) [] (children (menu w)) (options w)
   \<and> aboutToShow ext (new_DynamicMenuWidget ext m reg) = new_DynamicMenuWidget ext m reg
   \<and> aboutToShow ext (w\<lparr>items := previous\<rparr>) = aboutToShow ext w"
  by (simp add: aboutToShow_items new_DynamicMenuWidget_items)




subsection \<open>The focus hook\<close>

lemma emit_disconnects: "aboutToClose s = slots \<Longrightarrow> aboutToClose (emit slots s) = []"
  by (induction slots arbitrary: s) (simp_all add: cb_def)

lemma attached_open_menu: "attached (open_menu s)"
  by (simp add: open_menu_def super_open_def Let_def)

lemma closed_has_no_hooks: "reachable s \<Longrightarrow> \<not> attached s \<Longrightarrow> aboutToClose s = []"
proof (induction rule: reachable.induct)
  case (fresh s)
  then show ?case by simp
next
  case (opened s)
  then show ?case by (simp add: attached_open_menu)
next
  case (closed s)
  then show ?case
    by (cases "attached s") (simp_all add: close_menu_def emit_disconnects)
next
  case (moved s e)
  then show ?case by (simp add: focus_moves_def)
qed

lemma fold_focus_moves:
  "fold focus_moves es s = s\<lparr>activeElement := (if es = [] then activeElement s else last es)\<rparr>"
  by (induction es arbitrary: s) (simp_all add: focus_moves_def)

text \<open>
  Claim C7. From any reachable state in which the menu is closed: \<open>open\<close> connects one
  callback, which holds the element that has the focus at that moment; wherever the focus
  moves while the menu is open, closing it focuses that element, once, and leaves no
  callback connected; and closing again without opening changes nothing.
\<close>

theorem focus_is_restored_once:
  assumes "reachable s" and "\<not> attached s"
  shows "aboutToClose (open_menu s) = [activeElement s]
       \<and> close_menu (fold focus_moves es (open_menu s))
           = s\<lparr>restored := restored s @ [activeElement s]\<rparr>
       \<and> aboutToClose (close_menu (fold focus_moves es (open_menu s))) = []
       \<and> close_menu (close_menu (fold focus_moves es (open_menu s)))
           = close_menu (fold focus_moves es (open_menu s))"
proof -
  have none: "aboutToClose s = []" using assms by (rule closed_has_no_hooks)
  have o: "open_menu s = s\<lparr>aboutToClose := [activeElement s], attached := True,
                             activeElement := menuNode s\<rparr>"
    using assms(2) none by (simp add: open_menu_def super_open_def Let_def)
  have c: "close_menu (fold focus_moves es (open_menu s))
           = s\<lparr>restored := restored s @ [activeElement s]\<rparr>"
    using assms(2) none
    by (simp add: o fold_focus_moves close_menu_def cb_def)
  show ?thesis
    using c o none assms(2) by (simp add: close_menu_def)
qed

theorem focus_is_restored_once_witness:
  "reachable \<lparr>activeElement = ''editor'', attached = False, aboutToClose = [],
              restored = [], menuNode = ''menu''\<rparr>
   \<and> \<not> attached \<lparr>activeElement = ''editor'', attached = False, aboutToClose = [],
              restored = [], menuNode = ''menu''\<rparr>
   \<and> close_menu (fold focus_moves [''item'']
        (open_menu \<lparr>activeElement = ''editor'', attached = False, aboutToClose = [],
              restored = [], menuNode = ''menu''\<rparr>))
       = \<lparr>activeElement = ''editor'', attached = False, aboutToClose = [],
              restored = [''editor''], menuNode = ''menu''\<rparr>"
  using focus_is_restored_once
    [of "\<lparr>activeElement = ''editor'', attached = False, aboutToClose = [],
              restored = [], menuNode = ''menu''\<rparr>" "[''item'']"]
    reachable.fresh [of "\<lparr>activeElement = ''editor'', attached = False, aboutToClose = [],
              restored = [], menuNode = ''menu''\<rparr>"]
  by simp

section \<open>The claims about the widget open handler\<close>

text \<open>
  Claim C8. When the widget manager holds a widget under the key derived from the URI,
  \<open>open\<close> with the mode \<open>reveal\<close> returns that widget; the manager's table and the
  widgets created are as before; and the shell receives \<open>revealWidget\<close> for the widget's
  id, after \<open>addWidget\<close> when the widget was not attached, and no other call.
\<close>

theorem reveal_reuses_existing_widget:
  assumes "manager_getWidget st this_id (createWidgetOptions uri opts) = Some r"
    and "map_of (store st) r = Some w"
    and "opts = Some \<lparr>mode = Some mode_reveal, widgetOptions = area\<rparr>"
  shows "open_widget st this_id uri opts
           = Inr (r, shell_revealWidget
                       (if isAttached w then st
                        else shell_addWidget st r (case area of None \<Rightarrow> ''main'' | Some a \<Rightarrow> a))
                       (widget_id w))
       \<and> (\<forall>st'. open_widget st this_id uri opts = Inr (r, st') \<longrightarrow>
             widgets st' = widgets st \<and> created st' = created st
             \<and> map fst (store st') = map fst (store st)
             \<and> shellCalls st'
                 = shellCalls st
                   @ (if isAttached w then []
                      else [addWidget r (case area of None \<Rightarrow> ''main'' | Some a \<Rightarrow> a)])
                   @ [revealWidget (widget_id w)])"
proof -
  have g: "getOrCreateWidget st this_id uri opts = Inr (r, st)"
    using assms(1)
    by (simp add: getOrCreateWidget_def manager_getOrCreateWidget_def manager_getWidget_def)
  have o: "open_widget st this_id uri opts
           = Inr (r, shell_revealWidget
                       (if isAttached w then st
                        else shell_addWidget st r (case area of None \<Rightarrow> ''main'' | Some a \<Rightarrow> a))
                       (widget_id w))"
    using assms(2) g unfolding assms(3) by (simp add: open_widget_def doOpen_def)
  show ?thesis
    unfolding o
    by (auto simp add: shell_revealWidget_def shell_addWidget_def split: prod.splits)
qed

theorem reveal_reuses_existing_widget_witness:
  "manager_getWidget
      \<lparr>store = [(1, \<lparr>widget_id = ''editor:1'', isAttached = True\<rparr>)],
       widgets = [((''editor'', ''file:/a.txt''), 1)], factories = (\<lambda>_. None),
       created = [(''editor'', 1)], shellCalls = []\<rparr>
      ''editor''
      (createWidgetOptions
         \<lparr>scheme = ''file'', authority = [], path = ''/a.txt'', query = [], fragment = ''L3''\<rparr>
         (Some \<lparr>mode = Some mode_reveal, widgetOptions = None\<rparr>))
     = Some 1
   \<and> map_of (store
        \<lparr>store = [(1, \<lparr>widget_id = ''editor:1'', isAttached = True\<rparr>)],
         widgets = [((''editor'', ''file:/a.txt''), 1)], factories = (\<lambda>_. None),
         created = [(''editor'', 1)], shellCalls = []\<rparr>) 1
       = Some \<lparr>widget_id = ''editor:1'', isAttached = True\<rparr>
   \<and> open_widget
        \<lparr>store = [(1, \<lparr>widget_id = ''editor:1'', isAttached = True\<rparr>)],
         widgets = [((''editor'', ''file:/a.txt''), 1)], factories = (\<lambda>_. None),
         created = [(''editor'', 1)], shellCalls = []\<rparr>
        ''editor''
        \<lparr>scheme = ''file'', authority = [], path = ''/a.txt'', query = [], fragment = ''L3''\<rparr>
        (Some \<lparr>mode = Some mode_reveal, widgetOptions = None\<rparr>)
       = Inr (1, \<lparr>store = [(1, \<lparr>widget_id = ''editor:1'', isAttached = True\<rparr>)],
                  widgets = [((''editor'', ''file:/a.txt''), 1)], factories = (\<lambda>_. None),
                  created = [(''editor'', 1)], shellCalls = [revealWidget ''editor:1'']\<rparr>)"
  using reveal_reuses_existing_widget
    [of "\<lparr>store = [(1, \<lparr>widget_id = ''editor:1'', isAttached = True\<rparr>)],
          widgets = [((''editor'', ''file:/a.txt''), 1)], factories = (\<lambda>_. None),
          created = [(''editor'', 1)], shellCalls = []\<rparr>"
        "''editor''"
        "\<lparr>scheme = ''file'', authority = [], path = ''/a.txt'', query = [], fragment = ''L3''\<rparr>"
        "Some \<lparr>mode = Some mode_reveal, widgetOptions = None\<rparr>"
        1 "\<lparr>widget_id = ''editor:1'', isAttached = True\<rparr>" None]
  by (simp add: manager_getWidget_def createWidgetOptions_def withoutFragment_def toString_def
        shell_revealWidget_def)

text \<open>
  Claim C10. Two URIs with the same scheme, authority, path and query have the same
  widget options, the string form of the URI without its fragment; so \<open>getWidget\<close>,
  \<open>getByUri\<close>, \<open>getOrCreateWidget\<close> and \<open>open\<close> give the same result for both.
\<close>

theorem fragment_is_ignored:
  assumes "scheme u1 = scheme u2" and "authority u1 = authority u2"
    and "path u1 = path u2" and "query u1 = query u2"
  shows "createWidgetOptions u1 o1 = createWidgetOptions u2 o2
       \<and> createWidgetOptions u1 o1 = toString (u1\<lparr>fragment := []\<rparr>)
       \<and> getWidget st i u1 o1 = getWidget st i u2 o2
       \<and> getByUri st i u1 = getByUri st i u2
       \<and> getOrCreateWidget st i u1 o1 = getOrCreateWidget st i u2 o2
       \<and> open_widget st i u1 o3 = open_widget st i u2 o3"
proof -
  have "withoutFragment u1 = withoutFragment u2"
    using assms by (cases u1, cases u2) (simp add: withoutFragment_def)
  then have k: "createWidgetOptions u1 a = createWidgetOptions u2 b" for a b
    by (simp add: createWidgetOptions_def)
  show ?thesis
    using k [of o1 o2] k [of None None] k [of o3 o3]
    by (simp add: getWidget_def getByUri_def getOrCreateWidget_def open_widget_def)
       (simp add: createWidgetOptions_def withoutFragment_def)
qed

theorem fragment_is_ignored_witness:
  "scheme \<lparr>scheme = ''file'', authority = [], path = ''/a.txt'', query = [], fragment = ''L3''\<rparr>
     = scheme \<lparr>scheme = ''file'', authority = [], path = ''/a.txt'', query = [], fragment = ''L9''\<rparr>
   \<and> authority \<lparr>scheme = ''file'', authority = [], path = ''/a.txt'', query = [], fragment = ''L3''\<rparr>
     = authority \<lparr>scheme = ''file'', authority = [], path = ''/a.txt'', query = [], fragment = ''L9''\<rparr>
   \<and> path \<lparr>scheme = ''file'', authority = [], path = ''/a.txt'', query = [], fragment = ''L3''\<rparr>
     = path \<lparr>scheme = ''file'', authority = [], path = ''/a.txt'', query = [], fragment = ''L9''\<rparr>
   \<and> query \<lparr>scheme = ''file'', authority = [], path = ''/a.txt'', query = [], fragment = ''L3''\<rparr>
     = query \<lparr>scheme = ''file'', authority = [], path = ''/a.txt'', query = [], fragment = ''L9''\<rparr>
   \<and> createWidgetOptions
        \<lparr>scheme = ''file'', authority = [], path = ''/a.txt'', query = [], fragment = ''L3''\<rparr> None
       = ''file:/a.txt''
   \<and> createWidgetOptions
        \<lparr>scheme = ''file'', authority = [], path = ''/a.txt'', query = [], fragment = ''L9''\<rparr> None
       = ''file:/a.txt''"
  using fragment_is_ignored
    [of "\<lparr>scheme = ''file'', authority = [], path = ''/a.txt'', query = [], fragment = ''L3''\<rparr>"
        "\<lparr>scheme = ''file'', authority = [], path = ''/a.txt'', query = [], fragment = ''L9''\<rparr>"
        None None]
  by (simp add: createWidgetOptions_def withoutFragment_def toString_def)

end
